theory Spec2Isabelle
  imports Complex_Main "HOL-Library.Sublist" "HOL-Library.Signed_Division"
begin

section \<open>AMI events (package ami)\<close>

text \<open>
  An event is an ordered list of headers; keys may repeat and lookup returns the first
  match. Go strings are byte sequences, modelled as \<open>string\<close> (a list of 8-bit chars).
\<close>

record header =
  Key :: string
  Value :: string

record Event =
  headers :: "header list"

text \<open>\<open>NewEvent(kvs...)\<close>: pairs up the arguments; an odd trailing argument is dropped.\<close>

fun NewEvent_headers :: "string list \<Rightarrow> header list" where
  "NewEvent_headers (k # v # kvs) = \<lparr>Key = k, Value = v\<rparr> # NewEvent_headers kvs"
| "NewEvent_headers _ = []"

definition NewEvent :: "string list \<Rightarrow> Event" where
  "NewEvent kvs = \<lparr>headers = NewEvent_headers kvs\<rparr>"

text \<open>\<open>Get\<close>: the loop over \<open>e.headers\<close> returning at the first header whose key matches.\<close>

fun Get_loop :: "header list \<Rightarrow> string \<Rightarrow> string" where
  "Get_loop [] key = []"
| "Get_loop (h # hs) key = (if Key h = key then Value h else Get_loop hs key)"

definition Get :: "Event \<Rightarrow> string \<Rightarrow> string" where
  "Get e key = Get_loop (headers e) key"

definition Type :: "Event \<Rightarrow> string" where
  "Type e = Get e ''Event''"

definition IsResponse :: "Event \<Rightarrow> bool" where
  "IsResponse e = (Get e ''Response'' \<noteq> [])"

subsection \<open>The standard library's \<open>strconv.Atoi\<close>\<close>

text \<open>
  \<open>GetInt\<close> calls \<open>strconv.Atoi\<close> of the Go standard library and drops its error.
  \<open>Atoi\<close> returns a value together with an error; the value is not always 0 when the
  error is set (for a value that does not fit, the library documents a range error and
  the bound of the same sign as the returned value), so both are modelled. \<open>int\<close> is 64 bits wide on the build target of the
  repository (linux/amd64 in the Makefile and the deploy script).
\<close>

datatype NumError = ErrSyntax | ErrRange

definition byte_sub :: "char \<Rightarrow> char \<Rightarrow> int" where
  \<comment> \<open>subtraction of two bytes, wrapping at 256\<close>
  "byte_sub a b = (of_char a - of_char b) mod 256"

definition maxUint64 :: int where
  "maxUint64 = 2 ^ 64 - 1"

text \<open>
  \<open>ParseUint(s, 10, 64)\<close>: the digit loop over a \<open>uint64\<close> accumulator (an \<open>int\<close>
  here, the wrap-around written out). A byte that is not a decimal digit is a syntax
  error (a letter has a digit value of at least 10, the base). On overflow the loop
  returns at once with the maximal value and a range error.
\<close>

fun ParseUint_loop :: "int \<Rightarrow> string \<Rightarrow> int \<times> NumError option" where
  "ParseUint_loop n [] = (n, None)"
| "ParseUint_loop n (c # s) =
     (if \<not> ((48::nat) \<le> of_char c \<and> of_char c \<le> (57::nat)) then (0, Some ErrSyntax)
      else let d = byte_sub c (CHR ''0'') in
        if n \<ge> maxUint64 div 10 + 1 then (maxUint64, Some ErrRange)
        else let n10 = (n * 10) mod 2 ^ 64; n1 = (n10 + d) mod 2 ^ 64 in
          if n1 < n10 \<or> n1 > maxUint64 then (maxUint64, Some ErrRange)
          else ParseUint_loop n1 s)"

definition ParseUint :: "string \<Rightarrow> int \<times> NumError option" where
  "ParseUint s = (if s = [] then (0, Some ErrSyntax) else ParseUint_loop 0 s)"

definition to_int64 :: "int \<Rightarrow> int" where
  \<comment> \<open>conversion to a signed 64-bit integer, wrapping\<close>
  "to_int64 x = (x + 2 ^ 63) mod 2 ^ 64 - 2 ^ 63"

text \<open>\<open>ParseInt(s, 10, 0)\<close>: sign, unsigned value, then the range check with clamping.\<close>

definition ParseInt :: "string \<Rightarrow> int \<times> NumError option" where
  "ParseInt s =
     (if s = [] then (0, Some ErrSyntax)
      else let neg = (hd s = CHR ''-'');
               s' = (if hd s = CHR ''+'' \<or> hd s = CHR ''-'' then tl s else s);
               (un, err) = ParseUint s' in
        if err \<noteq> None \<and> err \<noteq> Some ErrRange then (0, err)
        else let cutoff = (2::int) ^ 63 in
          if \<not> neg \<and> un \<ge> cutoff then (cutoff - 1, Some ErrRange)
          else if neg \<and> un > cutoff then (- cutoff, Some ErrRange)
          else let n = to_int64 un in
            (if neg then to_int64 (- n) else n, None))"

fun Atoi_loop :: "int \<Rightarrow> string \<Rightarrow> int option" where
  \<comment> \<open>the fast path's digit loop; \<open>None\<close> is its syntax error\<close>
  "Atoi_loop n [] = Some n"
| "Atoi_loop n (ch # s) =
     (let d = byte_sub ch (CHR ''0'') in
      if d > 9 then None else Atoi_loop (n * 10 + d) s)"

definition Atoi :: "string \<Rightarrow> int \<times> NumError option" where
  "Atoi s =
     (if 0 < length s \<and> length s < 19 then
        (let s' = (if hd s = CHR ''-'' \<or> hd s = CHR ''+'' then tl s else s) in
         if (hd s = CHR ''-'' \<or> hd s = CHR ''+'') \<and> length s' < 1 then (0, Some ErrSyntax)
         else case Atoi_loop 0 s' of
             None \<Rightarrow> (0, Some ErrSyntax)
           | Some n \<Rightarrow> (if hd s = CHR ''-'' then - n else n, None))
      else ParseInt s)"

text \<open>\<open>GetInt\<close>: \<open>v, _ := strconv.Atoi(e.Get(key)); return v\<close>.\<close>

definition GetInt :: "Event \<Rightarrow> string \<Rightarrow> int" where
  "GetInt e key = fst (Atoi (Get e key))"

section \<open>The line protocol reader (package ami)\<close>

text \<open>
  \<open>NewParser\<close> wraps its reader in a \<open>bufio.Scanner\<close> with the default split function
  (\<open>ScanLines\<close>) and the default buffer, whose size is capped at \<open>MaxScanTokenSize\<close>
  (64 KiB). A line is delivered without its line feed and without one carriage return
  before it. When the buffer is full and holds no line feed, \<open>Scan\<close> records
  \<open>ErrTooLong\<close> and returns false; it reads no further input afterwards, and a later call
  hands what the buffer holds to the split function as the final data. At the end of the
  input \<open>Scan\<close> returns false as well; \<open>Parser.Next\<close> cannot tell the two apart, since
  it never reads the scanner's error.

  The scanner's state is the input it has not consumed yet and whether \<open>ErrTooLong\<close> has
  occurred (the unconsumed input is then what the buffer held). The reader is one that
  reports the end of its input by a read of its own, as a string reader and a network
  connection do.
\<close>

definition MaxScanTokenSize :: nat where
  "MaxScanTokenSize = 64 * 1024"

record Scanner =
  unread :: string
  tooLong :: bool

definition dropCR :: "string \<Rightarrow> string" where
  "dropCR data = (if data \<noteq> [] \<and> last data = CHR 0x0D then butlast data else data)"

text \<open>\<open>Scan\<close> followed by \<open>Text\<close>: the line delivered, if any, and the scanner afterwards.\<close>

definition Scan :: "Scanner \<Rightarrow> string option \<times> Scanner" where
  "Scan s =
     (if unread s = [] then (None, s)
      else let line = takeWhile (\<lambda>c. c \<noteq> CHR 0x0A) (unread s) in
        if \<not> tooLong s \<and> MaxScanTokenSize \<le> length line
        then (None, \<lparr>unread = take MaxScanTokenSize (unread s), tooLong = True\<rparr>)
        else (Some (dropCR line), s\<lparr>unread := drop (length line + 1) (unread s)\<rparr>))"

definition NewParser :: "string \<Rightarrow> Scanner" where
  "NewParser data = \<lparr>unread = data, tooLong = False\<rparr>"

definition TrimRight_CR :: "string \<Rightarrow> string" where
  \<comment> \<open>\<open>strings.TrimRight(line, "\r")\<close>: every trailing carriage return is removed\<close>
  "TrimRight_CR line = rev (dropWhile (\<lambda>c. c = CHR 0x0D) (rev line))"

fun Index :: "string \<Rightarrow> string \<Rightarrow> int" where
  \<comment> \<open>\<open>strings.Index\<close>: the position of the first occurrence of \<open>sep\<close>, or -1\<close>
  "Index [] sep = (if sep = [] then 0 else - 1)"
| "Index (c # cs) sep =
     (if prefix sep (c # cs) then 0
      else let i = Index cs sep in if i < 0 then - 1 else i + 1)"

text \<open>
  \<open>Parser.Next\<close>: the loop over \<open>Scan\<close> with the headers collected so far; it returns
  the event, if any, and the scanner. Every delivered line consumes input, so the loop ends.
\<close>

function Next_loop :: "header list \<Rightarrow> Scanner \<Rightarrow> Event option \<times> Scanner" where
  "Next_loop hdrs s =
     (case Scan s of
        (None, s') \<Rightarrow>
          (if length hdrs > 0 then (Some \<lparr>headers = hdrs\<rparr>, s') else (None, s'))
      | (Some text, s') \<Rightarrow>
          (let line = TrimRight_CR text in
           if line = [] then
             (if length hdrs > 0 then (Some \<lparr>headers = hdrs\<rparr>, s') else Next_loop hdrs s')
           else let idx = Index line '': '' in
             if idx < 0 then
               (if length hdrs = 0 then Next_loop hdrs s'
                else Next_loop (hdrs @ [\<lparr>Key = [], Value = line\<rparr>]) s')
             else Next_loop
                    (hdrs @ [\<lparr>Key = take (nat idx) line, Value = drop (nat idx + 2) line\<rparr>]) s'))"
  by pat_completeness auto
termination
  by (relation "measure (\<lambda>(hdrs, s). length (unread s))")
    (auto simp add: Scan_def Let_def split: if_splits)

declare Next_loop.simps [simp del]

definition Next :: "Scanner \<Rightarrow> Event option \<times> Scanner" where
  "Next p = Next_loop [] p"

section \<open>Call state changes and the cause table (package correlator)\<close>

text \<open>
  A \<open>time.Time\<close> is modelled by the nanoseconds elapsed since Go's zero instant
  (January 1, year 1, 00:00:00 UTC), so \<open>IsZero\<close> holds of 0 only; there is one time
  axis (Go subtracts the monotonic readings of two instants that both carry one). A
  \<open>Duration\<close> is a signed 64-bit count of nanoseconds and \<open>Time.Sub\<close> saturates at its
  bounds. \<open>Duration.Seconds\<close> is computed by the source in \<open>float64\<close>; here it is the real
  number that computation rounds (exact whenever the duration is a whole number of
  seconds).
\<close>

type_synonym Time = int
type_synonym Duration = int

definition zeroTime :: Time where
  "zeroTime = 0"

definition IsZero :: "Time \<Rightarrow> bool" where
  "IsZero t = (t = zeroTime)"

definition maxDuration :: Duration where
  "maxDuration = 2 ^ 63 - 1"

definition minDuration :: Duration where
  "minDuration = - (2 ^ 63)"

definition Sub :: "Time \<Rightarrow> Time \<Rightarrow> Duration" where
  "Sub t u = (let d = t - u in
     if d > maxDuration then maxDuration else if d < minDuration then minDuration else d)"

definition Seconds :: "Duration \<Rightarrow> real" where
  "Seconds d = of_int (d sdiv 1000000000) + of_int (d smod 1000000000) / 1000000000"

datatype CallState = StateRinging | StateAnswered | StateHungUp

record Endpoint =
  Extension :: string
  Name :: string

record CallStateChange =
  State :: CallState
  CallID :: string
  From :: Endpoint
  To :: Endpoint
  Timestamp :: Time
  RingDuration :: real
  Cause :: string
  CauseDescription :: string
  CauseCode :: int
  TalkDuration :: real
  TotalDuration :: real

definition HangupCause_table :: "(int \<times> string \<times> string) list" where
  "HangupCause_table =
    [(0, ''unknown'', ''Unknown or no cause provided''),
     (16, ''normal_clearing'', ''The call was hung up normally by one of the parties''),
     (17, ''user_busy'', ''The destination was busy''),
     (18, ''no_answer'', ''The destination did not answer''),
     (19, ''no_answer'', ''The destination did not answer within the timeout''),
     (21, ''call_rejected'', ''The call was rejected by the destination''),
     (31, ''normal_unspecified'', ''Normal call clearing, unspecified cause''),
     (34, ''congestion'', ''All circuits are busy or no circuit is available''),
     (127, ''interworking'', ''An interworking error occurred'')]"

definition HangupCause :: "int \<rightharpoonup> string \<times> string" where
  "HangupCause = map_of HangupCause_table"

section \<open>The correlator\<close>

text \<open>
  \<open>callState\<close> is the in-flight record of one call; the fields \<open>from\<close> and \<open>to\<close> of the
  source are \<open>from_endpoint\<close> and \<open>to_endpoint\<close> here. The correlator's \<open>calls\<close> maps a
  Linkedid to its record; each record is reachable through the map only, so the map of
  pointers is a map of values.
\<close>

record callState =
  linkedID :: string
  from_endpoint :: Endpoint
  to_endpoint :: Endpoint
  ringTime :: Time
  answerTime :: Time
  answered :: bool
  rung :: bool
  cancelled :: bool

record Correlator =
  calls :: "string \<rightharpoonup> callState"

definition New :: Correlator where
  "New = \<lparr>calls = Map.empty\<rparr>"

text \<open>
  The clock is an injected function without arguments, called at most once while a
  record is processed. Every operation below takes \<open>now\<close>, the instant the clock returns
  if it is called during that operation, and returns the new correlator with the emitted
  changes (a \<open>nil\<close> slice is the empty list).
\<close>

definition handleNewchannel :: "Correlator \<Rightarrow> Event \<Rightarrow> string \<Rightarrow> Correlator \<times> CallStateChange list" where
  "handleNewchannel c evt lid =
     (if calls c lid \<noteq> None then (c, [])
      else (c\<lparr>calls := (calls c)(lid \<mapsto>
              \<lparr>linkedID = lid,
               from_endpoint = \<lparr>Extension = Get evt ''CallerIDNum'', Name = Get evt ''CallerIDName''\<rparr>,
               to_endpoint = \<lparr>Extension = Get evt ''Exten'', Name = []\<rparr>,
               ringTime = zeroTime, answerTime = zeroTime,
               answered = False, rung = False, cancelled = False\<rparr>)\<rparr>, []))"

definition handleDialBegin :: "Correlator \<Rightarrow> Event \<Rightarrow> string \<Rightarrow> Correlator \<times> CallStateChange list" where
  "handleDialBegin c evt lid =
     (case calls c lid of
        None \<Rightarrow> (c, [])
      | Some cs \<Rightarrow>
          if Name (to_endpoint cs) = [] then
            (let name = Get evt ''DestCallerIDName'' in
             if name \<noteq> [] then
               (c\<lparr>calls := (calls c)(lid \<mapsto> cs\<lparr>to_endpoint := (to_endpoint cs)\<lparr>Name := name\<rparr>\<rparr>)\<rparr>, [])
             else (c, []))
          else (c, []))"

definition handleNewstate :: "Correlator \<Rightarrow> Time \<Rightarrow> Event \<Rightarrow> string \<Rightarrow> Correlator \<times> CallStateChange list" where
  "handleNewstate c now evt lid =
     (case calls c lid of
        None \<Rightarrow> (c, [])
      | Some cs \<Rightarrow>
          let stateDesc = Get evt ''ChannelStateDesc'' in
          if stateDesc = ''Ringing'' then
            (if rung cs then (c, [])
             else (c\<lparr>calls := (calls c)(lid \<mapsto> cs\<lparr>rung := True, ringTime := now\<rparr>)\<rparr>,
                   [\<lparr>State = StateRinging, CallID = lid,
                     From = from_endpoint cs, To = to_endpoint cs, Timestamp = now,
                     RingDuration = 0, Cause = [], CauseDescription = [], CauseCode = 0,
                     TalkDuration = 0, TotalDuration = 0\<rparr>]))
          else if stateDesc = ''Up'' then
            (if answered cs then (c, [])
             else let ringDur = (if \<not> IsZero (ringTime cs) then Seconds (Sub now (ringTime cs)) else 0) in
                  (c\<lparr>calls := (calls c)(lid \<mapsto> cs\<lparr>answered := True, answerTime := now\<rparr>)\<rparr>,
                   [\<lparr>State = StateAnswered, CallID = lid,
                     From = from_endpoint cs, To = to_endpoint cs, Timestamp = now,
                     RingDuration = ringDur, Cause = [], CauseDescription = [], CauseCode = 0,
                     TalkDuration = 0, TotalDuration = 0\<rparr>]))
          else (c, []))"

definition handleDialEnd :: "Correlator \<Rightarrow> Event \<Rightarrow> string \<Rightarrow> Correlator \<times> CallStateChange list" where
  "handleDialEnd c evt lid =
     (case calls c lid of
        None \<Rightarrow> (c, [])
      | Some cs \<Rightarrow>
          if Get evt ''DialStatus'' = ''CANCEL'' then
            (c\<lparr>calls := (calls c)(lid \<mapsto> cs\<lparr>cancelled := True\<rparr>)\<rparr>, [])
          else (c, []))"

definition handleHangup :: "Correlator \<Rightarrow> Time \<Rightarrow> Event \<Rightarrow> string \<Rightarrow> Correlator \<times> CallStateChange list" where
  "handleHangup c now evt lid =
     (case calls c lid of
        None \<Rightarrow> (c, [])
      | Some cs \<Rightarrow>
          let uniqueID = Get evt ''Uniqueid'' in
          if uniqueID \<noteq> lid then (c, [])
          else
            let causeCode = GetInt evt ''Cause'';
                (causeName, causeDesc) =
                  (if cancelled cs \<and> \<not> answered cs then
                     (''cancelled'', ''The call was cancelled by the caller before being answered'')
                   else case HangupCause causeCode of
                       Some info \<Rightarrow> info
                     | None \<Rightarrow> (''unknown'', ''Unknown or no cause provided''));
                talkDur = (if answered cs \<and> \<not> IsZero (answerTime cs)
                           then Seconds (Sub now (answerTime cs)) else 0);
                totalDur = (if \<not> IsZero (ringTime cs)
                            then Seconds (Sub now (ringTime cs)) else 0);
                change = \<lparr>State = StateHungUp, CallID = lid,
                          From = from_endpoint cs, To = to_endpoint cs, Timestamp = now,
                          RingDuration = 0, Cause = causeName, CauseDescription = causeDesc,
                          CauseCode = causeCode,
                          TalkDuration = talkDur, TotalDuration = totalDur\<rparr>
            in (c\<lparr>calls := (calls c)(lid := None)\<rparr>, [change]))"

definition Process :: "Correlator \<Rightarrow> Time \<Rightarrow> Event \<Rightarrow> Correlator \<times> CallStateChange list" where
  "Process c now evt =
     (if IsResponse evt then (c, [])
      else let lid = Get evt ''Linkedid'' in
        if lid = [] then (c, [])
        else if Type evt = ''Newchannel'' then handleNewchannel c evt lid
        else if Type evt = ''DialBegin'' then handleDialBegin c evt lid
        else if Type evt = ''Newstate'' then handleNewstate c now evt lid
        else if Type evt = ''DialEnd'' then handleDialEnd c evt lid
        else if Type evt = ''Hangup'' then handleHangup c now evt lid
        else (c, []))"

text \<open>
  \<open>processAll\<close> is the loop of the tests and of the bridge: the records are processed in
  arrival order by one correlator and the emitted changes are appended. Each record comes
  with the clock's instant for it.
\<close>

fun processAll :: "Correlator \<Rightarrow> (Time \<times> Event) list \<Rightarrow> Correlator \<times> CallStateChange list" where
  "processAll c [] = (c, [])"
| "processAll c ((now, evt) # evts) =
     (let (c', changes) = Process c now evt;
          (c'', changes') = processAll c' evts
      in (c'', changes @ changes'))"

section \<open>Observing a run\<close>

text \<open>
  The changes of one state emitted for one call id, and the number of CallRecords opened
  for a call id while a list of records is processed (the id enters the active set).
\<close>

definition changes_of :: "CallState \<Rightarrow> string \<Rightarrow> CallStateChange list \<Rightarrow> CallStateChange list" where
  "changes_of st lid chs = filter (\<lambda>ch. State ch = st \<and> CallID ch = lid) chs"

fun creations :: "string \<Rightarrow> Correlator \<Rightarrow> (Time \<times> Event) list \<Rightarrow> nat" where
  "creations lid c [] = 0"
| "creations lid c ((now, evt) # evts) =
     (let c' = fst (Process c now evt) in
      (if calls c lid = None \<and> calls c' lid \<noteq> None then 1 else 0) + creations lid c' evts)"

text \<open>
  How many changes of a state the record tracked for a call id, if any, can still emit.
\<close>

definition pending :: "CallState \<Rightarrow> string \<Rightarrow> Correlator \<Rightarrow> nat" where
  "pending st lid c =
     (case calls c lid of
        None \<Rightarrow> 0
      | Some cs \<Rightarrow>
          (case st of
             StateRinging \<Rightarrow> if rung cs then 0 else 1
           | StateAnswered \<Rightarrow> if answered cs then 0 else 1
           | StateHungUp \<Rightarrow> 1))"

text \<open>
  The changes emitted for a call id since its last HungUp change, the most recent first:
  these are the changes of the CallRecord now tracked for the id, since a HungUp change
  removes the record. \<open>rung_first\<close>: the first of them, if there is one, is Ringing, that
  is, the call was not answered before or without a witnessed ringing.
\<close>

definition since_hangup :: "string \<Rightarrow> CallStateChange list \<Rightarrow> CallStateChange list" where
  "since_hangup lid chs =
     takeWhile (\<lambda>ch. State ch \<noteq> StateHungUp) (rev (filter (\<lambda>ch. CallID ch = lid) chs))"

definition rung_first :: "string \<Rightarrow> CallStateChange list \<Rightarrow> bool" where
  "rung_first lid chs =
     (since_hangup lid chs = [] \<or> State (last (since_hangup lid chs)) = StateRinging)"

text \<open>
  The invariant of a run. A tracked record and the changes emitted for it are in one of
  five stages: created; rung; answered without a ringing; rung, then answered; answered,
  then rung. Its flags say which, its ring and answer instants are the timestamps of the
  Ringing and Answered changes, and the ring instant is the zero time until it rings.
  For an id that is not tracked nothing has been emitted since its last HungUp change.
\<close>

definition record_inv :: "callState \<Rightarrow> CallStateChange list \<Rightarrow> bool" where
  "record_inv cs chs =
     ((chs = [] \<and> \<not> rung cs \<and> \<not> answered cs \<and> ringTime cs = zeroTime) \<or>
      (\<exists>r. chs = [r] \<and> State r = StateRinging \<and> rung cs \<and> \<not> answered cs \<and>
           ringTime cs = Timestamp r) \<or>
      (\<exists>a. chs = [a] \<and> State a = StateAnswered \<and> \<not> rung cs \<and> answered cs \<and>
           ringTime cs = zeroTime \<and> answerTime cs = Timestamp a) \<or>
      (\<exists>a r. chs = [a, r] \<and> State a = StateAnswered \<and> State r = StateRinging \<and>
           rung cs \<and> answered cs \<and> ringTime cs = Timestamp r \<and> answerTime cs = Timestamp a) \<or>
      (\<exists>r a. chs = [r, a] \<and> State r = StateRinging \<and> State a = StateAnswered \<and>
           rung cs \<and> answered cs \<and> ringTime cs = Timestamp r \<and> answerTime cs = Timestamp a))"

definition run_inv :: "Correlator \<Rightarrow> CallStateChange list \<Rightarrow> bool" where
  "run_inv c chs =
     (\<forall>lid. case calls c lid of
        None \<Rightarrow> since_hangup lid chs = []
      | Some cs \<Rightarrow> record_inv cs (since_hangup lid chs))"

section \<open>The event accessor\<close>

lemmas event_defs = NewEvent_def Get_def Type_def IsResponse_def

lemmas Atoi_defs = Atoi_def ParseInt_def ParseUint_def maxUint64_def byte_sub_def to_int64_def

lemmas handler_defs = handleNewchannel_def handleDialBegin_def handleNewstate_def
  handleDialEnd_def handleHangup_def

lemma Atoi_empty: "Atoi [] = (0, Some ErrSyntax)"
  by (simp add: Atoi_def ParseInt_def)

lemma Get_loop_absent: "key \<notin> Key ` set hs \<Longrightarrow> Get_loop hs key = []"
  by (induction hs) auto

lemma GetInt_absent: "key \<notin> Key ` set (headers e) \<Longrightarrow> GetInt e key = 0"
  by (simp add: GetInt_def Get_def Get_loop_absent Atoi_empty)

lemma ParseInt_syntax:
  assumes "snd (ParseInt s) = Some ErrSyntax"
  shows "fst (ParseInt s) = 0"
proof (cases "s = []")
  case True
  then show ?thesis by (simp add: ParseInt_def)
next
  case False
  note nonempty = this
  obtain un err
    where pu: "ParseUint (if hd s = CHR ''+'' \<or> hd s = CHR ''-'' then tl s else s) = (un, err)"
    by (cases "ParseUint (if hd s = CHR ''+'' \<or> hd s = CHR ''-'' then tl s else s)")
  show ?thesis
  proof (cases "err \<noteq> None \<and> err \<noteq> Some ErrRange")
    case True
    with nonempty pu show ?thesis by (simp add: ParseInt_def Let_def)
  next
    case False
    with nonempty pu have "snd (ParseInt s) \<noteq> Some ErrSyntax"
      by (auto simp add: ParseInt_def Let_def)
    with assms show ?thesis by simp
  qed
qed

lemma Atoi_syntax: "snd (Atoi s) = Some ErrSyntax \<Longrightarrow> fst (Atoi s) = 0"
  by (auto simp add: Atoi_def Let_def ParseInt_syntax split: if_splits option.splits)

lemma GetInt_syntax_error: "snd (Atoi (Get e key)) = Some ErrSyntax \<Longrightarrow> GetInt e key = 0"
  by (simp add: GetInt_def Atoi_syntax)

text \<open>
  Claim C7 (\<open>getInt\<close> returns 0 whenever the key is absent or the value fails to parse,
  values out of the integer range included). \<open>GetInt\<close> is total, and it is 0 for an absent
  key and for a syntax error (\<open>GetInt_absent\<close>, \<open>GetInt_syntax_error\<close>). For digits out of
  the 64-bit range \<open>Atoi\<close> reports a range error together with the nearest bound, and
  \<open>GetInt\<close>, which drops the error, returns that bound: for the value 9223372036854775808
  (that is 2^63) of the header \<open>Cause\<close> it returns 9223372036854775807, not 0.
\<close>

theorem GetInt_out_of_range:
  "snd (Atoi ''9223372036854775808'') = Some ErrRange \<and>
   GetInt (NewEvent [''Event'', ''Hangup'', ''Cause'', ''9223372036854775808'']) ''Cause''
     = 9223372036854775807"
  by (simp add: GetInt_def event_defs Atoi_defs)

section \<open>The line protocol reader: lines without the separator\<close>

lemma Index_nonneg_iff: "0 \<le> Index s sep \<longleftrightarrow> sublist sep s"
  by (induction s) (auto simp add: Let_def sublist_Cons_right)

lemma Index_neg_iff: "Index s sep < 0 \<longleftrightarrow> \<not> sublist sep s"
  using Index_nonneg_iff [of s sep] by linarith

lemma Scan_consumes: "Scan s = (Some raw, s') \<Longrightarrow> length (unread s') < length (unread s)"
  by (auto simp add: Scan_def Let_def split: if_splits)

text \<open>A line within the limit is delivered, whatever follows it.\<close>

lemma Scan_line:
  assumes "unread s = raw @ CHR 0x0A # rest" and "CHR 0x0A \<notin> set raw"
    and "length raw < MaxScanTokenSize"
  shows "Scan s = (Some (dropCR raw), s\<lparr>unread := rest\<rparr>)"
proof -
  from assms(1,2) have "takeWhile (\<lambda>c. c \<noteq> CHR 0x0A) (unread s) = raw"
    by (auto simp add: takeWhile_tail)
  with assms show ?thesis by (simp add: Scan_def)
qed

lemma Next_loop_in_progress:
  "hdrs \<noteq> [] \<Longrightarrow> \<exists>ev s'. Next_loop hdrs s = (Some ev, s') \<and> prefix hdrs (headers ev)"
proof (induction "length (unread s)" arbitrary: hdrs s rule: less_induct)
  case less
  obtain tok s1 where sc: "Scan s = (tok, s1)" by (cases "Scan s")
  show ?case
  proof (cases tok)
    case None
    with sc less.prems show ?thesis by (simp add: Next_loop.simps [of hdrs s])
  next
    case (Some raw)
    with sc have smaller: "length (unread s1) < length (unread s)" by (simp add: Scan_consumes)
    have step: "\<exists>ev. (\<exists>s'. Next_loop (hdrs @ [h]) s1 = (Some ev, s')) \<and> prefix hdrs (headers ev)" for h
    proof -
      from less.hyps [OF smaller, of "hdrs @ [h]"]
      obtain ev s' where "Next_loop (hdrs @ [h]) s1 = (Some ev, s')"
        and "prefix (hdrs @ [h]) (headers ev)" by auto
      then show ?thesis by (auto dest: append_prefixD)
    qed
    from sc Some less.prems show ?thesis
      by (simp add: Next_loop.simps [of hdrs s] Let_def step)
  qed
qed

text \<open>
  A delivered line that is not blank and has no separator: with no header collected it
  is skipped; otherwise it is appended with the empty key and is part of the record
  returned.
\<close>

lemma delivered_line_without_separator:
  assumes "Scan s = (Some raw, s')"
    and "line = TrimRight_CR raw" and "line \<noteq> []" and "\<not> sublist '': '' line"
  shows "Next_loop [] s = Next_loop [] s' \<and>
         (hdrs \<noteq> [] \<longrightarrow>
           Next_loop hdrs s = Next_loop (hdrs @ [\<lparr>Key = [], Value = line\<rparr>]) s' \<and>
           (\<exists>ev s''. Next_loop hdrs s = (Some ev, s'') \<and>
              prefix (hdrs @ [\<lparr>Key = [], Value = line\<rparr>]) (headers ev)))"
proof (intro conjI impI)
  from assms have idx: "Index (TrimRight_CR raw) '': '' < 0"
    by (simp add: Index_neg_iff)
  from assms idx show "Next_loop [] s = Next_loop [] s'"
    by (simp add: Next_loop.simps [of "[]" s] Let_def)
  assume "hdrs \<noteq> []"
  with assms idx
  show eq: "Next_loop hdrs s = Next_loop (hdrs @ [\<lparr>Key = [], Value = line\<rparr>]) s'"
    by (simp add: Next_loop.simps [of hdrs s] Let_def)
  have "\<exists>ev s''. Next_loop (hdrs @ [\<lparr>Key = [], Value = line\<rparr>]) s' = (Some ev, s'') \<and>
              prefix (hdrs @ [\<lparr>Key = [], Value = line\<rparr>]) (headers ev)"
    by (rule Next_loop_in_progress) simp
  then show "\<exists>ev s''. Next_loop hdrs s = (Some ev, s'') \<and>
              prefix (hdrs @ [\<lparr>Key = [], Value = line\<rparr>]) (headers ev)"
    by (simp only: eq)
qed

lemma no_separator_in_replicate: "Index (replicate n (CHR ''x'')) '': '' < 0"
proof -
  have "\<not> sublist '': '' (replicate n (CHR ''x''))"
  proof
    assume "sublist '': '' (replicate n (CHR ''x''))"
    then have "set '': '' \<subseteq> set (replicate n (CHR ''x''))" by (rule set_mono_sublist)
    then show False by (auto split: if_splits)
  qed
  then show ?thesis by (simp add: Index_neg_iff)
qed

lemma TrimRight_CR_replicate: "TrimRight_CR (replicate n (CHR ''x'')) = replicate n (CHR ''x'')"
  by (cases n) (simp_all add: TrimRight_CR_def replicate_append_same [symmetric] del: replicate_Suc)

lemma dropCR_replicate: "dropCR (replicate n (CHR ''x'')) = replicate n (CHR ''x'')"
  by (cases n) (simp_all add: dropCR_def)

lemma MaxScanTokenSize_pos: "0 < MaxScanTokenSize"
  by (simp add: MaxScanTokenSize_def)

text \<open>
  Claim C6: a line without the separator \<open>": "\<close> is discarded while no pair has been
  captured for the record in progress, and is retained in the record, as a pair with the
  empty key and the stripped line as its value, once a pair has been captured. This is
  what \<open>Next\<close> does with every line the scanner delivers
  (\<open>delivered_line_without_separator\<close>), and the scanner delivers every line of fewer than
  64 KiB (\<open>Scan_line\<close>). A line of 64 KiB or more is not delivered: \<open>Scan\<close> fails,
  \<open>Next\<close> takes the failure for the end of the input and returns the record in progress
  without the line; the following call of \<open>Next\<close> is handed the first 64 KiB of the line,
  skips them and reports the end of the stream, so the rest of the input is lost. Below,
  the input is the header \<open>Event: Test\<close>, a line of 65536 letters, the header
  \<open>Key: Value\<close> and a blank line: the record returned holds the header \<open>Event\<close> only,
  and no second record follows.
\<close>

theorem overlong_line_dropped:
  "Next (NewParser (''Event: Test'' @ [CHR 0x0A] @ replicate MaxScanTokenSize (CHR ''x'') @
                     [CHR 0x0A] @ ''Key: Value'' @ [CHR 0x0A, CHR 0x0A]))
     = (Some \<lparr>headers = [\<lparr>Key = ''Event'', Value = ''Test''\<rparr>]\<rparr>,
        \<lparr>unread = replicate MaxScanTokenSize (CHR ''x''), tooLong = True\<rparr>) \<and>
   Next \<lparr>unread = replicate MaxScanTokenSize (CHR ''x''), tooLong = True\<rparr>
     = (None, \<lparr>unread = [], tooLong = True\<rparr>)"
proof
  let ?x = "replicate MaxScanTokenSize (CHR ''x'')"
  let ?tail = "CHR 0x0A # ''Key: Value'' @ [CHR 0x0A, CHR 0x0A]"
  have first: "Scan (NewParser (''Event: Test'' @ [CHR 0x0A] @ ?x @ [CHR 0x0A] @ ''Key: Value'' @ [CHR 0x0A, CHR 0x0A]))
      = (Some ''Event: Test'', \<lparr>unread = ?x @ ?tail, tooLong = False\<rparr>)"
    by (simp add: Scan_def NewParser_def MaxScanTokenSize_def dropCR_def)
  have "takeWhile (\<lambda>c. c \<noteq> CHR 0x0A) (?x @ ?tail) = ?x"
    by (simp add: takeWhile_tail)
  then have second: "Scan \<lparr>unread = ?x @ ?tail, tooLong = False\<rparr> = (None, \<lparr>unread = ?x, tooLong = True\<rparr>)"
    using MaxScanTokenSize_pos by (simp add: Scan_def)
  have "Next_loop [\<lparr>Key = ''Event'', Value = ''Test''\<rparr>] \<lparr>unread = ?x @ ?tail, tooLong = False\<rparr>
      = (Some \<lparr>headers = [\<lparr>Key = ''Event'', Value = ''Test''\<rparr>]\<rparr>, \<lparr>unread = ?x, tooLong = True\<rparr>)"
    by (subst Next_loop.simps) (simp add: second [simplified])
  then show "Next (NewParser (''Event: Test'' @ [CHR 0x0A] @ ?x @ [CHR 0x0A] @ ''Key: Value'' @ [CHR 0x0A, CHR 0x0A]))
     = (Some \<lparr>headers = [\<lparr>Key = ''Event'', Value = ''Test''\<rparr>]\<rparr>, \<lparr>unread = ?x, tooLong = True\<rparr>)"
    unfolding Next_def
    by (subst Next_loop.simps) (simp add: first [simplified] TrimRight_CR_def Let_def)
  have third: "Scan \<lparr>unread = ?x, tooLong = True\<rparr> = (Some ?x, \<lparr>unread = [], tooLong = True\<rparr>)"
    using MaxScanTokenSize_pos by (simp add: Scan_def dropCR_replicate)
  have fourth: "Scan \<lparr>unread = [], tooLong = True\<rparr> = (None, \<lparr>unread = [], tooLong = True\<rparr>)"
    by (simp add: Scan_def)
  have "Next_loop [] \<lparr>unread = [], tooLong = True\<rparr> = (None, \<lparr>unread = [], tooLong = True\<rparr>)"
    by (subst Next_loop.simps) (simp add: fourth)
  then show "Next \<lparr>unread = ?x, tooLong = True\<rparr> = (None, \<lparr>unread = [], tooLong = True\<rparr>)"
    using MaxScanTokenSize_pos unfolding Next_def
    by (subst Next_loop.simps)
      (simp add: third TrimRight_CR_replicate no_separator_in_replicate Let_def)
qed

section \<open>One record at a time\<close>

lemma handlers_length:
  "length (snd (handleNewchannel c evt lid)) \<le> Suc 0"
  "length (snd (handleDialBegin c evt lid)) \<le> Suc 0"
  "length (snd (handleNewstate c now evt lid)) \<le> Suc 0"
  "length (snd (handleDialEnd c evt lid)) \<le> Suc 0"
  "length (snd (handleHangup c now evt lid)) \<le> Suc 0"
  by (simp_all add: handler_defs Let_def split: option.split prod.split)

text \<open>
  Claim C8: for every correlator state, every instant of the clock and every input record,
  \<open>Process\<close> emits at most one change.
\<close>

theorem Process_at_most_one_change: "length (snd (Process c now evt)) \<le> 1"
  by (simp add: Process_def Let_def handlers_length)

theorem Process_at_most_one_change_witness:
  "length (snd (Process
      \<lparr>calls = [''dup.1'' \<mapsto> \<lparr>linkedID = ''dup.1'',
          from_endpoint = \<lparr>Extension = ''1986'', Name = []\<rparr>,
          to_endpoint = \<lparr>Extension = ''21'', Name = []\<rparr>,
          ringTime = 0, answerTime = 0, answered = False, rung = False, cancelled = False\<rparr>]\<rparr>
      7 (NewEvent [''Event'', ''Newstate'', ''ChannelStateDesc'', ''Ringing'',
                   ''Uniqueid'', ''dup.2'', ''Linkedid'', ''dup.1'']))) = 1"
  using Process_at_most_one_change [of
      "\<lparr>calls = [''dup.1'' \<mapsto> \<lparr>linkedID = ''dup.1'',
          from_endpoint = \<lparr>Extension = ''1986'', Name = []\<rparr>,
          to_endpoint = \<lparr>Extension = ''21'', Name = []\<rparr>,
          ringTime = 0, answerTime = 0, answered = False, rung = False, cancelled = False\<rparr>]\<rparr>"
      7 "NewEvent [''Event'', ''Newstate'', ''ChannelStateDesc'', ''Ringing'',
                   ''Uniqueid'', ''dup.2'', ''Linkedid'', ''dup.1'']"]
  by (simp add: Process_def handleNewstate_def event_defs Let_def)

text \<open>
  Claim C5: a termination notification (a record of type \<open>Hangup\<close>) whose per-leg
  identifier (\<open>Uniqueid\<close>) differs from its call id (\<open>Linkedid\<close>), processed while a
  CallRecord exists for that call id, emits no change and leaves the correlator as it
  was: the record stays in the active set and none of its fields changes.
\<close>

theorem secondary_leg_hangup_ignored:
  assumes "Type evt = ''Hangup''"
    and "Get evt ''Uniqueid'' \<noteq> Get evt ''Linkedid''"
    and "calls c (Get evt ''Linkedid'') = Some cs"
  shows "Process c now evt = (c, [])"
  using assms by (simp add: Process_def handleHangup_def Let_def)

theorem secondary_leg_hangup_ignored_witness:
  "Process
     \<lparr>calls = [''na.1'' \<mapsto> \<lparr>linkedID = ''na.1'',
         from_endpoint = \<lparr>Extension = ''1986'', Name = []\<rparr>,
         to_endpoint = \<lparr>Extension = ''21'', Name = []\<rparr>,
         ringTime = 5, answerTime = 0, answered = False, rung = True, cancelled = False\<rparr>]\<rparr>
     9 (NewEvent [''Event'', ''Hangup'', ''Cause'', ''16'', ''Uniqueid'', ''na.2'', ''Linkedid'', ''na.1''])
   = (\<lparr>calls = [''na.1'' \<mapsto> \<lparr>linkedID = ''na.1'',
         from_endpoint = \<lparr>Extension = ''1986'', Name = []\<rparr>,
         to_endpoint = \<lparr>Extension = ''21'', Name = []\<rparr>,
         ringTime = 5, answerTime = 0, answered = False, rung = True, cancelled = False\<rparr>]\<rparr>, [])"
  by (rule secondary_leg_hangup_ignored) (simp_all add: event_defs)

text \<open>
  Claim C2: when the primary leg's termination (a \<open>Hangup\<close> record whose \<open>Uniqueid\<close>
  equals its \<open>Linkedid\<close>) finalizes a call, exactly one HungUp change is emitted; its
  numeric cause code is the raw code of the record in every case; its cause name and
  description are \<open>cancelled\<close> with the fixed description if the call's cancelled flag is
  set and its answered flag is unset, and the cause table's entry for the code (or
  \<open>unknown\<close>) otherwise; so for an answered call the cancelled flag has no effect.
\<close>

theorem cause_resolution:
  assumes "\<not> IsResponse evt" and "Get evt ''Linkedid'' = lid" and "lid \<noteq> []"
    and "Type evt = ''Hangup''" and "Get evt ''Uniqueid'' = lid"
    and "calls c lid = Some cs"
  shows "\<exists>ch. snd (Process c now evt) = [ch] \<and> State ch = StateHungUp \<and>
           CauseCode ch = GetInt evt ''Cause'' \<and>
           (Cause ch, CauseDescription ch) =
             (if cancelled cs \<and> \<not> answered cs
              then (''cancelled'', ''The call was cancelled by the caller before being answered'')
              else case HangupCause (GetInt evt ''Cause'') of
                     Some info \<Rightarrow> info
                   | None \<Rightarrow> (''unknown'', ''Unknown or no cause provided'')) \<and>
           (answered cs \<longrightarrow> (Cause ch, CauseDescription ch) =
              (case HangupCause (GetInt evt ''Cause'') of
                 Some info \<Rightarrow> info
               | None \<Rightarrow> (''unknown'', ''Unknown or no cause provided'')))"
  using assms by (simp add: Process_def handleHangup_def Let_def split: prod.split)

text \<open>
  A call that rang and was cancelled, hung up with cause code 127: unanswered, it is
  reported as \<open>cancelled\<close> with code 127; answered, as \<open>interworking\<close>.
\<close>

theorem cause_resolution_witness:
  "(\<exists>ch. snd (Process
      \<lparr>calls = [''na.1'' \<mapsto> \<lparr>linkedID = ''na.1'',
          from_endpoint = \<lparr>Extension = ''1986'', Name = []\<rparr>,
          to_endpoint = \<lparr>Extension = ''21'', Name = []\<rparr>,
          ringTime = 5, answerTime = 0, answered = False, rung = True, cancelled = True\<rparr>]\<rparr>
      9 (NewEvent [''Event'', ''Hangup'', ''Cause'', ''127'', ''Uniqueid'', ''na.1'', ''Linkedid'', ''na.1'']))
    = [ch] \<and> State ch = StateHungUp \<and> CauseCode ch = 127 \<and> Cause ch = ''cancelled'') \<and>
   (\<exists>ch. snd (Process
      \<lparr>calls = [''na.1'' \<mapsto> \<lparr>linkedID = ''na.1'',
          from_endpoint = \<lparr>Extension = ''1986'', Name = []\<rparr>,
          to_endpoint = \<lparr>Extension = ''21'', Name = []\<rparr>,
          ringTime = 5, answerTime = 7, answered = True, rung = True, cancelled = True\<rparr>]\<rparr>
      9 (NewEvent [''Event'', ''Hangup'', ''Cause'', ''127'', ''Uniqueid'', ''na.1'', ''Linkedid'', ''na.1'']))
    = [ch] \<and> State ch = StateHungUp \<and> CauseCode ch = 127 \<and> Cause ch = ''interworking'')"
  using cause_resolution [of
      "NewEvent [''Event'', ''Hangup'', ''Cause'', ''127'', ''Uniqueid'', ''na.1'', ''Linkedid'', ''na.1'']"
      "''na.1''"
      "\<lparr>calls = [''na.1'' \<mapsto> \<lparr>linkedID = ''na.1'',
          from_endpoint = \<lparr>Extension = ''1986'', Name = []\<rparr>,
          to_endpoint = \<lparr>Extension = ''21'', Name = []\<rparr>,
          ringTime = 5, answerTime = 0, answered = False, rung = True, cancelled = True\<rparr>]\<rparr>"
      "\<lparr>linkedID = ''na.1'',
          from_endpoint = \<lparr>Extension = ''1986'', Name = []\<rparr>,
          to_endpoint = \<lparr>Extension = ''21'', Name = []\<rparr>,
          ringTime = 5, answerTime = 0, answered = False, rung = True, cancelled = True\<rparr>"
      9]
    cause_resolution [of
      "NewEvent [''Event'', ''Hangup'', ''Cause'', ''127'', ''Uniqueid'', ''na.1'', ''Linkedid'', ''na.1'']"
      "''na.1''"
      "\<lparr>calls = [''na.1'' \<mapsto> \<lparr>linkedID = ''na.1'',
          from_endpoint = \<lparr>Extension = ''1986'', Name = []\<rparr>,
          to_endpoint = \<lparr>Extension = ''21'', Name = []\<rparr>,
          ringTime = 5, answerTime = 7, answered = True, rung = True, cancelled = True\<rparr>]\<rparr>"
      "\<lparr>linkedID = ''na.1'',
          from_endpoint = \<lparr>Extension = ''1986'', Name = []\<rparr>,
          to_endpoint = \<lparr>Extension = ''21'', Name = []\<rparr>,
          ringTime = 5, answerTime = 7, answered = True, rung = True, cancelled = True\<rparr>"
      9]
  by (auto simp add: event_defs GetInt_def Atoi_defs HangupCause_def HangupCause_table_def)

lemma dom_handleNewchannel:
  "dom (calls (fst (handleNewchannel c evt lid))) = insert lid (dom (calls c))"
  by (auto simp add: handleNewchannel_def)

lemma dom_handleDialBegin: "dom (calls (fst (handleDialBegin c evt lid))) = dom (calls c)"
  by (auto simp add: handleDialBegin_def Let_def split: option.splits)

lemma dom_handleNewstate: "dom (calls (fst (handleNewstate c now evt lid))) = dom (calls c)"
  by (auto simp add: handleNewstate_def Let_def split: option.splits)

lemma dom_handleDialEnd: "dom (calls (fst (handleDialEnd c evt lid))) = dom (calls c)"
  by (auto simp add: handleDialEnd_def split: option.splits)

lemma dom_handleHangup:
  "dom (calls (fst (handleHangup c now evt lid))) =
     (if Get evt ''Uniqueid'' = lid then dom (calls c) - {lid} else dom (calls c))"
  by (auto simp add: handleHangup_def Let_def split: option.splits prod.splits)

lemmas dom_handlers = dom_handleNewchannel dom_handleDialBegin dom_handleNewstate
  dom_handleDialEnd dom_handleHangup

text \<open>
  Claim C9: the set of tracked call ids changes in two ways only. A creation notification
  (a record of type \<open>Newchannel\<close> that is not a response and has a call id) whose id is
  not tracked inserts exactly that id; a primary-leg termination (a \<open>Hangup\<close> record
  whose \<open>Uniqueid\<close> equals its call id) whose id is tracked removes exactly that id; every
  other record leaves the set as it was.
\<close>

theorem tracked_ids_change:
  "dom (calls (fst (Process c now evt))) =
     (let lid = Get evt ''Linkedid'' in
      if \<not> IsResponse evt \<and> lid \<noteq> [] \<and> Type evt = ''Newchannel'' \<and> lid \<notin> dom (calls c)
        then insert lid (dom (calls c))
      else if \<not> IsResponse evt \<and> lid \<noteq> [] \<and> Type evt = ''Hangup'' \<and> Get evt ''Uniqueid'' = lid
              \<and> lid \<in> dom (calls c)
        then dom (calls c) - {lid}
      else dom (calls c))"
  unfolding Process_def Let_def
  by (simp add: dom_handlers insert_absorb)

theorem tracked_ids_change_witness:
  "dom (calls (fst (Process New 3
      (NewEvent [''Event'', ''Newchannel'', ''CallerIDNum'', ''1986'', ''Exten'', ''21'',
                 ''Uniqueid'', ''call.1'', ''Linkedid'', ''call.1''])))) = {''call.1''} \<and>
   dom (calls (fst (Process
      \<lparr>calls = [''call.1'' \<mapsto> \<lparr>linkedID = ''call.1'',
          from_endpoint = \<lparr>Extension = ''1986'', Name = []\<rparr>,
          to_endpoint = \<lparr>Extension = ''21'', Name = []\<rparr>,
          ringTime = 0, answerTime = 0, answered = False, rung = False, cancelled = False\<rparr>]\<rparr>
      4 (NewEvent [''Event'', ''Hangup'', ''Cause'', ''16'',
                   ''Uniqueid'', ''call.1'', ''Linkedid'', ''call.1''])))) = {}"
  using tracked_ids_change [of New 3
      "NewEvent [''Event'', ''Newchannel'', ''CallerIDNum'', ''1986'', ''Exten'', ''21'',
                 ''Uniqueid'', ''call.1'', ''Linkedid'', ''call.1'']"]
    tracked_ids_change [of
      "\<lparr>calls = [''call.1'' \<mapsto> \<lparr>linkedID = ''call.1'',
          from_endpoint = \<lparr>Extension = ''1986'', Name = []\<rparr>,
          to_endpoint = \<lparr>Extension = ''21'', Name = []\<rparr>,
          ringTime = 0, answerTime = 0, answered = False, rung = False, cancelled = False\<rparr>]\<rparr>"
      4 "NewEvent [''Event'', ''Hangup'', ''Cause'', ''16'',
                   ''Uniqueid'', ''call.1'', ''Linkedid'', ''call.1'']"]
  by (simp add: event_defs New_def)

section \<open>Scenario A\<close>

lemma Seconds_eq: "Seconds d = of_int d / 1000000000"
proof -
  have "of_int d = (of_int (d sdiv 1000000000 * 1000000000 + d smod 1000000000) :: real)"
    by (simp only: sdiv_mult_smod_eq)
  then show ?thesis by (simp add: Seconds_def field_simps)
qed

text \<open>
  Claim C1 (concrete scenario A): creation (from extension 1986 named Martin, to
  extension 21) at \<open>t0\<close>, the ringing notification at \<open>t0\<close>, the answer notification five
  seconds later and the primary leg's termination with cause 16 thirty-five seconds after
  \<open>t0\<close>, all for one call id, emit exactly three changes in this order: Ringing at \<open>t0\<close>;
  Answered with ring duration 5 at \<open>t0\<close> + 5 s; HungUp with cause \<open>normal_clearing\<close>, code 16,
  talk duration 30 and total duration 35 at \<open>t0\<close> + 35 s. The instant \<open>t0\<close> is any instant
  after Go's zero time, which the code reads as "no ring or answer seen yet"; the call
  id is any non-empty string and \<open>uid\<close> is the identifier of the leg that rings and answers.
\<close>

theorem scenario_A:
  assumes "zeroTime < t0" and "lid \<noteq> []"
  shows "snd (processAll New
     [(t0, NewEvent [''Event'', ''Newchannel'', ''CallerIDNum'', ''1986'',
                     ''CallerIDName'', ''Martin'', ''Exten'', ''21'',
                     ''Uniqueid'', lid, ''Linkedid'', lid]),
      (t0, NewEvent [''Event'', ''Newstate'', ''ChannelStateDesc'', ''Ringing'',
                     ''Uniqueid'', uid, ''Linkedid'', lid]),
      (t0 + 5000000000, NewEvent [''Event'', ''Newstate'', ''ChannelStateDesc'', ''Up'',
                     ''Uniqueid'', uid, ''Linkedid'', lid]),
      (t0 + 35000000000, NewEvent [''Event'', ''Hangup'', ''Cause'', ''16'',
                     ''Uniqueid'', lid, ''Linkedid'', lid])])
   = [\<lparr>State = StateRinging, CallID = lid,
       From = \<lparr>Extension = ''1986'', Name = ''Martin''\<rparr>, To = \<lparr>Extension = ''21'', Name = []\<rparr>,
       Timestamp = t0, RingDuration = 0, Cause = [], CauseDescription = [], CauseCode = 0,
       TalkDuration = 0, TotalDuration = 0\<rparr>,
      \<lparr>State = StateAnswered, CallID = lid,
       From = \<lparr>Extension = ''1986'', Name = ''Martin''\<rparr>, To = \<lparr>Extension = ''21'', Name = []\<rparr>,
       Timestamp = t0 + 5000000000, RingDuration = 5, Cause = [], CauseDescription = [],
       CauseCode = 0, TalkDuration = 0, TotalDuration = 0\<rparr>,
      \<lparr>State = StateHungUp, CallID = lid,
       From = \<lparr>Extension = ''1986'', Name = ''Martin''\<rparr>, To = \<lparr>Extension = ''21'', Name = []\<rparr>,
       Timestamp = t0 + 35000000000, RingDuration = 0, Cause = ''normal_clearing'',
       CauseDescription = ''The call was hung up normally by one of the parties'',
       CauseCode = 16, TalkDuration = 30, TotalDuration = 35\<rparr>]"
  using assms
  by (simp add: event_defs Process_def handler_defs New_def GetInt_def Atoi_defs
      HangupCause_def HangupCause_table_def IsZero_def zeroTime_def Seconds_eq Sub_def
      maxDuration_def minDuration_def Let_def)

text \<open>The scenario as the test suite runs it: \<open>t0\<close> is 2026-01-01 12:00:00 UTC.\<close>

theorem scenario_A_witness:
  "zeroTime < 63902865600000000000 \<and> ''test.1'' \<noteq> [] \<and>
   map (\<lambda>ch. (State ch, Timestamp ch, RingDuration ch, Cause ch, CauseCode ch,
              TalkDuration ch, TotalDuration ch))
     (snd (processAll New
       [(63902865600000000000, NewEvent [''Event'', ''Newchannel'', ''CallerIDNum'', ''1986'',
                     ''CallerIDName'', ''Martin'', ''Exten'', ''21'',
                     ''Uniqueid'', ''test.1'', ''Linkedid'', ''test.1'']),
        (63902865600000000000, NewEvent [''Event'', ''Newstate'', ''ChannelStateDesc'', ''Ringing'',
                     ''Uniqueid'', ''test.2'', ''Linkedid'', ''test.1'']),
        (63902865605000000000, NewEvent [''Event'', ''Newstate'', ''ChannelStateDesc'', ''Up'',
                     ''Uniqueid'', ''test.2'', ''Linkedid'', ''test.1'']),
        (63902865635000000000, NewEvent [''Event'', ''Hangup'', ''Cause'', ''16'',
                     ''Uniqueid'', ''test.1'', ''Linkedid'', ''test.1''])]))
   = [(StateRinging, 63902865600000000000, 0, [], 0, 0, 0),
      (StateAnswered, 63902865605000000000, 5, [], 0, 0, 0),
      (StateHungUp, 63902865635000000000, 0, ''normal_clearing'', 16, 30, 35)]"
  using scenario_A [of 63902865600000000000 "''test.1''" "''test.2''"]
  by (simp add: zeroTime_def)


section \<open>What processing one record can do\<close>

text \<open>
  Every call of \<open>Process\<close> is of one of seven kinds: nothing happens, a record is opened,
  the destination name is attached, the ringing or the answer is recorded and reported,
  the cancellation is recorded, or the primary leg's termination is reported and the
  record removed.
\<close>

lemma handleHangup_primary:
  assumes "calls c lid = Some cs" and "Get evt ''Uniqueid'' = lid"
  shows "\<exists>ch. handleHangup c now evt lid = (c\<lparr>calls := (calls c)(lid := None)\<rparr>, [ch]) \<and>
     State ch = StateHungUp \<and> CallID ch = lid \<and>
     TalkDuration ch = (if answered cs \<and> \<not> IsZero (answerTime cs)
                        then Seconds (Sub now (answerTime cs)) else 0) \<and>
     TotalDuration ch = (if \<not> IsZero (ringTime cs)
                         then Seconds (Sub now (ringTime cs)) else 0)"
  using assms by (simp add: handleHangup_def Let_def split: prod.split)

lemma Process_cases [case_names ignored created named ringing answered cancel hungup]:
  obtains
    (ignored) "Process c now evt = (c, [])"
  | (created) lid cs where "calls c lid = None"
      and "Process c now evt = (c\<lparr>calls := (calls c)(lid \<mapsto> cs)\<rparr>, [])"
      and "\<not> rung cs" and "\<not> answered cs" and "ringTime cs = zeroTime"
  | (named) lid cs ep where "calls c lid = Some cs"
      and "Process c now evt = (c\<lparr>calls := (calls c)(lid \<mapsto> cs\<lparr>to_endpoint := ep\<rparr>)\<rparr>, [])"
  | (ringing) lid cs ch where "calls c lid = Some cs" and "\<not> rung cs"
      and "Process c now evt =
             (c\<lparr>calls := (calls c)(lid \<mapsto> cs\<lparr>rung := True, ringTime := now\<rparr>)\<rparr>, [ch])"
      and "State ch = StateRinging" and "CallID ch = lid" and "Timestamp ch = now"
  | (answered) lid cs ch where "calls c lid = Some cs" and "\<not> answered cs"
      and "Process c now evt =
             (c\<lparr>calls := (calls c)(lid \<mapsto> cs\<lparr>answered := True, answerTime := now\<rparr>)\<rparr>, [ch])"
      and "State ch = StateAnswered" and "CallID ch = lid" and "Timestamp ch = now"
  | (cancel) lid cs where "calls c lid = Some cs"
      and "Process c now evt = (c\<lparr>calls := (calls c)(lid \<mapsto> cs\<lparr>cancelled := True\<rparr>)\<rparr>, [])"
  | (hungup) lid cs ch where "calls c lid = Some cs"
      and "Process c now evt = (c\<lparr>calls := (calls c)(lid := None)\<rparr>, [ch])"
      and "State ch = StateHungUp" and "CallID ch = lid"
      and "TalkDuration ch = (if answered cs \<and> \<not> IsZero (answerTime cs)
                              then Seconds (Sub now (answerTime cs)) else 0)"
      and "TotalDuration ch = (if \<not> IsZero (ringTime cs)
                               then Seconds (Sub now (ringTime cs)) else 0)"
proof -
  define lid where "lid = Get evt ''Linkedid''"
  consider (skip) "IsResponse evt \<or> lid = [] \<or>
      Type evt \<notin> {''Newchannel'', ''DialBegin'', ''Newstate'', ''DialEnd'', ''Hangup''}"
    | (nc) "\<not> IsResponse evt" "lid \<noteq> []" "Type evt = ''Newchannel''"
    | (db) "\<not> IsResponse evt" "lid \<noteq> []" "Type evt = ''DialBegin''"
    | (ns) "\<not> IsResponse evt" "lid \<noteq> []" "Type evt = ''Newstate''"
    | (de) "\<not> IsResponse evt" "lid \<noteq> []" "Type evt = ''DialEnd''"
    | (hu) "\<not> IsResponse evt" "lid \<noteq> []" "Type evt = ''Hangup''"
    by auto
  then show thesis
  proof cases
    case skip
    then have "Process c now evt = (c, [])"
      by (auto simp add: Process_def Let_def lid_def)
    then show thesis by (rule ignored)
  next
    case nc
    then have P: "Process c now evt = handleNewchannel c evt lid"
      by (simp add: Process_def lid_def)
    show thesis
    proof (cases "calls c lid")
      case None
      show thesis
        by (rule created [OF None], simp add: P handleNewchannel_def None) simp_all
    next
      case (Some cs)
      then have "Process c now evt = (c, [])" by (simp add: P handleNewchannel_def)
      then show thesis by (rule ignored)
    qed
  next
    case db
    then have P: "Process c now evt = handleDialBegin c evt lid"
      by (simp add: Process_def lid_def)
    show thesis
    proof (cases "calls c lid")
      case None
      then have "Process c now evt = (c, [])" by (simp add: P handleDialBegin_def)
      then show thesis by (rule ignored)
    next
      case (Some cs)
      show thesis
      proof (cases "Name (to_endpoint cs) = [] \<and> Get evt ''DestCallerIDName'' \<noteq> []")
        case True
        show thesis
          by (rule named [OF Some]) (simp add: P handleDialBegin_def Some True Let_def)
      next
        case False
        then have "Process c now evt = (c, [])"
          by (auto simp add: P handleDialBegin_def Some Let_def)
        then show thesis by (rule ignored)
      qed
    qed
  next
    case ns
    then have P: "Process c now evt = handleNewstate c now evt lid"
      by (simp add: Process_def lid_def)
    show thesis
    proof (cases "calls c lid")
      case None
      then have "Process c now evt = (c, [])" by (simp add: P handleNewstate_def)
      then show thesis by (rule ignored)
    next
      case (Some cs)
      consider (ring) "Get evt ''ChannelStateDesc'' = ''Ringing''" "\<not> rung cs"
        | (up) "Get evt ''ChannelStateDesc'' = ''Up''" "\<not> answered cs"
        | (other) "(Get evt ''ChannelStateDesc'' = ''Ringing'' \<and> rung cs) \<or>
                   (Get evt ''ChannelStateDesc'' = ''Up'' \<and> answered cs) \<or>
                   Get evt ''ChannelStateDesc'' \<notin> {''Ringing'', ''Up''}"
        by auto
      then show thesis
      proof cases
        case ring
        show thesis
          by (rule ringing [OF Some ring(2)], simp add: P handleNewstate_def Some ring Let_def) simp_all
      next
        case up
        show thesis
          by (rule answered [OF Some up(2)], simp add: P handleNewstate_def Some up Let_def) simp_all
      next
        case other
        then have "Process c now evt = (c, [])"
          by (auto simp add: P handleNewstate_def Some Let_def)
        then show thesis by (rule ignored)
      qed
    qed
  next
    case de
    then have P: "Process c now evt = handleDialEnd c evt lid"
      by (simp add: Process_def lid_def)
    show thesis
    proof (cases "calls c lid")
      case None
      then have "Process c now evt = (c, [])" by (simp add: P handleDialEnd_def)
      then show thesis by (rule ignored)
    next
      case (Some cs)
      show thesis
      proof (cases "Get evt ''DialStatus'' = ''CANCEL''")
        case True
        show thesis
          by (rule cancel [OF Some]) (simp add: P handleDialEnd_def Some True)
      next
        case False
        then have "Process c now evt = (c, [])"
          by (simp add: P handleDialEnd_def Some)
        then show thesis by (rule ignored)
      qed
    qed
  next
    case hu
    then have P: "Process c now evt = handleHangup c now evt lid"
      by (simp add: Process_def lid_def)
    show thesis
    proof (cases "calls c lid")
      case None
      then have "Process c now evt = (c, [])" by (simp add: P handleHangup_def)
      then show thesis by (rule ignored)
    next
      case (Some cs)
      show thesis
      proof (cases "Get evt ''Uniqueid'' = lid")
        case True
        from handleHangup_primary [OF Some True, of now]
        obtain ch where "Process c now evt = (c\<lparr>calls := (calls c)(lid := None)\<rparr>, [ch])"
          and "State ch = StateHungUp" and "CallID ch = lid"
          and "TalkDuration ch = (if answered cs \<and> \<not> IsZero (answerTime cs)
                                  then Seconds (Sub now (answerTime cs)) else 0)"
          and "TotalDuration ch = (if \<not> IsZero (ringTime cs)
                                   then Seconds (Sub now (ringTime cs)) else 0)"
          unfolding P by blast
        with Some show thesis by (rule hungup)
      next
        case False
        then have "Process c now evt = (c, [])"
          by (simp add: P handleHangup_def Some Let_def)
        then show thesis by (rule ignored)
      qed
    qed
  qed
qed

lemmas run_defs = event_defs Process_def handler_defs New_def Let_def GetInt_def Atoi_defs
  HangupCause_def HangupCause_table_def IsZero_def zeroTime_def Seconds_eq Sub_def
  maxDuration_def minDuration_def

section \<open>Changes per call id\<close>

lemma changes_of_append: "changes_of st lid (xs @ ys) = changes_of st lid xs @ changes_of st lid ys"
  by (simp add: changes_of_def)

lemma emit_step:
  assumes "Process c now evt = (c', out)"
  shows "length (changes_of st lid out) + pending st lid c'
           \<le> (if calls c lid = None \<and> calls c' lid \<noteq> None then 1 else 0) + pending st lid c"
proof (cases rule: Process_cases [of c now evt])
  case ignored
  with assms show ?thesis by (auto simp add: changes_of_def)
next
  case (created lid' cs)
  with assms show ?thesis
    by (cases st) (auto simp add: changes_of_def pending_def)
next
  case (named lid' cs ep)
  with assms show ?thesis
    by (cases st) (auto simp add: changes_of_def pending_def)
next
  case (ringing lid' cs ch)
  with assms show ?thesis
    by (cases st) (auto simp add: changes_of_def pending_def)
next
  case (answered lid' cs ch)
  with assms show ?thesis
    by (cases st) (auto simp add: changes_of_def pending_def)
next
  case (cancel lid' cs)
  with assms show ?thesis
    by (cases st) (auto simp add: changes_of_def pending_def)
next
  case (hungup lid' cs ch)
  with assms show ?thesis
    by (cases st) (auto simp add: changes_of_def pending_def)
qed

lemma emitted_le_creations:
  "length (changes_of st lid (snd (processAll c evts))) \<le> creations lid c evts + pending st lid c"
proof (induction evts arbitrary: c)
  case Nil
  show ?case by (simp add: changes_of_def)
next
  case (Cons e evts)
  obtain now evt where e: "e = (now, evt)" by (cases e)
  obtain c' out where P: "Process c now evt = (c', out)" by (cases "Process c now evt")
  obtain c'' out' where R: "processAll c' evts = (c'', out')" by (cases "processAll c' evts")
  from Cons.IH [of c'] R
  have IH: "length (changes_of st lid out') \<le> creations lid c' evts + pending st lid c'" by simp
  from emit_step [OF P, of st lid] IH
  show ?case by (simp add: e P R changes_of_append Let_def)
qed

text \<open>
  Claim C4, as the code has it. The claim says that at most one Ringing, one Answered and
  one HungUp change are ever emitted per call id over a whole record sequence, call ids
  being reusable. The code suppresses duplicates per CallRecord, not per call id: once
  the primary leg's termination has removed the record, a later creation notification
  with the same id opens a new record, which emits again (the test suite relies on it).
  What holds for every record sequence processed by a fresh correlator: for each of the
  three states, the number of changes of that state emitted for a call id is at most the
  number of CallRecords opened for that id; so each CallRecord emits at most one Ringing,
  one Answered and one HungUp change, and a call id that is never reused gets at most one
  of each.
\<close>

theorem one_change_per_call_record:
  "length (changes_of st lid (snd (processAll New evts))) \<le> creations lid New evts"
  using emitted_le_creations [of st lid New evts] by (simp add: pending_def New_def)

theorem one_change_per_call_record_witness:
  "creations ''dup.1'' New
      [(1, NewEvent [''Event'', ''Newchannel'', ''CallerIDNum'', ''1986'', ''Exten'', ''21'',
                     ''Uniqueid'', ''dup.1'', ''Linkedid'', ''dup.1'']),
       (2, NewEvent [''Event'', ''Newstate'', ''ChannelStateDesc'', ''Ringing'',
                     ''Uniqueid'', ''dup.2'', ''Linkedid'', ''dup.1'']),
       (3, NewEvent [''Event'', ''Newstate'', ''ChannelStateDesc'', ''Ringing'',
                     ''Uniqueid'', ''dup.3'', ''Linkedid'', ''dup.1''])] = 1 \<and>
   length (changes_of StateRinging ''dup.1'' (snd (processAll New
      [(1, NewEvent [''Event'', ''Newchannel'', ''CallerIDNum'', ''1986'', ''Exten'', ''21'',
                     ''Uniqueid'', ''dup.1'', ''Linkedid'', ''dup.1'']),
       (2, NewEvent [''Event'', ''Newstate'', ''ChannelStateDesc'', ''Ringing'',
                     ''Uniqueid'', ''dup.2'', ''Linkedid'', ''dup.1'']),
       (3, NewEvent [''Event'', ''Newstate'', ''ChannelStateDesc'', ''Ringing'',
                     ''Uniqueid'', ''dup.3'', ''Linkedid'', ''dup.1''])]))) \<le> 1"
  using one_change_per_call_record [of StateRinging "''dup.1''"
      "[(1, NewEvent [''Event'', ''Newchannel'', ''CallerIDNum'', ''1986'', ''Exten'', ''21'',
                     ''Uniqueid'', ''dup.1'', ''Linkedid'', ''dup.1'']),
       (2, NewEvent [''Event'', ''Newstate'', ''ChannelStateDesc'', ''Ringing'',
                     ''Uniqueid'', ''dup.2'', ''Linkedid'', ''dup.1'']),
       (3, NewEvent [''Event'', ''Newstate'', ''ChannelStateDesc'', ''Ringing'',
                     ''Uniqueid'', ''dup.3'', ''Linkedid'', ''dup.1''])]"]
  by (simp add: event_defs Process_def handler_defs New_def Let_def)

text \<open>
  A call id reused after its record was removed: two Ringing changes carry the same id.
\<close>

theorem call_id_reuse_counterexample:
  "\<not> length (changes_of StateRinging ''call.1'' (snd (processAll New
      [(1, NewEvent [''Event'', ''Newchannel'', ''CallerIDNum'', ''1986'', ''Exten'', ''21'',
                     ''Uniqueid'', ''call.1'', ''Linkedid'', ''call.1'']),
       (2, NewEvent [''Event'', ''Newstate'', ''ChannelStateDesc'', ''Ringing'',
                     ''Uniqueid'', ''call.2'', ''Linkedid'', ''call.1'']),
       (3, NewEvent [''Event'', ''Hangup'', ''Cause'', ''16'',
                     ''Uniqueid'', ''call.1'', ''Linkedid'', ''call.1'']),
       (4, NewEvent [''Event'', ''Newchannel'', ''CallerIDNum'', ''21'', ''Exten'', ''1986'',
                     ''Uniqueid'', ''call.1'', ''Linkedid'', ''call.1'']),
       (5, NewEvent [''Event'', ''Newstate'', ''ChannelStateDesc'', ''Ringing'',
                     ''Uniqueid'', ''call.2'', ''Linkedid'', ''call.1''])]))) \<le> 1"
  by (simp add: changes_of_def event_defs Process_def handler_defs New_def Let_def
      GetInt_def Atoi_defs HangupCause_def HangupCause_table_def)

section \<open>Durations of the HungUp change\<close>

lemma processAll_snoc:
  "processAll c (evts @ [(now, evt)]) =
     (let (c1, out1) = processAll c evts; (c2, out2) = Process c1 now evt in (c2, out1 @ out2))"
  by (induction evts arbitrary: c) (auto simp add: Let_def split: prod.splits)

lemma since_hangup_Nil: "since_hangup lid [] = []"
  by (simp add: since_hangup_def)

lemma since_hangup_snoc:
  "since_hangup lid (chs @ [ch]) =
     (if CallID ch = lid
      then (if State ch = StateHungUp then [] else ch # since_hangup lid chs)
      else since_hangup lid chs)"
  by (simp add: since_hangup_def)

lemma run_inv_step:
  assumes inv: "run_inv c chs" and P: "Process c now evt = (c', out)"
  shows "run_inv c' (chs @ out)"
  unfolding run_inv_def
proof
  fix l
  let ?sh = "since_hangup l chs"
  let ?goal = "case calls c' l of
        None \<Rightarrow> since_hangup l (chs @ out) = []
      | Some cs \<Rightarrow> record_inv cs (since_hangup l (chs @ out))"
  from inv have I0: "calls c l = None \<Longrightarrow> ?sh = []"
    and I: "calls c l = Some cs \<Longrightarrow> record_inv cs ?sh" for cs
    unfolding run_inv_def by (auto split: option.splits dest: spec [of _ l])
  have unchanged: ?goal if "calls c' l = calls c l" and "since_hangup l (chs @ out) = ?sh"
    using that I0 I by (auto split: option.splits)
  show ?goal
  proof (cases rule: Process_cases [of c now evt])
    case ignored
    with P have "c' = c" and "out = []" by simp_all
    then show ?thesis by (intro unchanged) simp_all
  next
    case (created lid' cs)
    with P have c': "c' = c\<lparr>calls := (calls c)(lid' \<mapsto> cs)\<rparr>" and out: "out = []" by simp_all
    show ?thesis
    proof (cases "l = lid'")
      case True
      with created(1) have "?sh = []" by (intro I0) simp
      with True created show ?thesis by (simp add: c' out record_inv_def)
    next
      case False
      with c' out show ?thesis by (intro unchanged) simp_all
    qed
  next
    case (named lid' cs ep)
    with P have c': "c' = c\<lparr>calls := (calls c)(lid' \<mapsto> cs\<lparr>to_endpoint := ep\<rparr>)\<rparr>"
      and out: "out = []" by simp_all
    show ?thesis
    proof (cases "l = lid'")
      case True
      with I [of cs] named(1) show ?thesis by (simp add: c' out record_inv_def)
    next
      case False
      with c' out show ?thesis by (intro unchanged) simp_all
    qed
  next
    case (cancel lid' cs)
    with P have c': "c' = c\<lparr>calls := (calls c)(lid' \<mapsto> cs\<lparr>cancelled := True\<rparr>)\<rparr>"
      and out: "out = []" by simp_all
    show ?thesis
    proof (cases "l = lid'")
      case True
      with I [of cs] cancel(1) show ?thesis by (simp add: c' out record_inv_def)
    next
      case False
      with c' out show ?thesis by (intro unchanged) simp_all
    qed
  next
    case (ringing lid' cs ch)
    with P have c': "c' = c\<lparr>calls := (calls c)(lid' \<mapsto> cs\<lparr>rung := True, ringTime := now\<rparr>)\<rparr>"
      and out: "out = [ch]" by simp_all
    show ?thesis
    proof (cases "l = lid'")
      case True
      with ringing have sh: "since_hangup l (chs @ out) = ch # ?sh"
        by (simp add: out since_hangup_snoc)
      from True ringing(1) have "record_inv cs ?sh" by (intro I) simp
      with ringing have "record_inv (cs\<lparr>rung := True, ringTime := now\<rparr>) (ch # ?sh)"
        by (auto simp add: record_inv_def)
      with True sh show ?thesis by (simp add: c')
    next
      case False
      with c' ringing show ?thesis by (intro unchanged) (simp_all add: out since_hangup_snoc)
    qed
  next
    case (answered lid' cs ch)
    with P have c': "c' = c\<lparr>calls := (calls c)(lid' \<mapsto> cs\<lparr>answered := True, answerTime := now\<rparr>)\<rparr>"
      and out: "out = [ch]" by simp_all
    show ?thesis
    proof (cases "l = lid'")
      case True
      with answered have sh: "since_hangup l (chs @ out) = ch # ?sh"
        by (simp add: out since_hangup_snoc)
      from True answered(1) have "record_inv cs ?sh" by (intro I) simp
      with answered have "record_inv (cs\<lparr>answered := True, answerTime := now\<rparr>) (ch # ?sh)"
        by (auto simp add: record_inv_def)
      with True sh show ?thesis by (simp add: c')
    next
      case False
      with c' answered show ?thesis by (intro unchanged) (simp_all add: out since_hangup_snoc)
    qed
  next
    case (hungup lid' cs ch)
    with P have c': "c' = c\<lparr>calls := (calls c)(lid' := None)\<rparr>" and out: "out = [ch]" by simp_all
    show ?thesis
    proof (cases "l = lid'")
      case True
      with hungup show ?thesis by (simp add: c' out since_hangup_snoc)
    next
      case False
      with c' hungup show ?thesis by (intro unchanged) (simp_all add: out since_hangup_snoc)
    qed
  qed
qed

lemma run_inv_run:
  "processAll New evts = (c, chs) \<Longrightarrow> run_inv c chs"
proof (induction evts arbitrary: c chs rule: rev_induct)
  case Nil
  then show ?case by (auto simp add: run_inv_def New_def since_hangup_Nil)
next
  case (snoc e evts)
  obtain now evt where e: "e = (now, evt)" by (cases e)
  obtain c1 out1 where R: "processAll New evts = (c1, out1)" by (cases "processAll New evts")
  obtain c2 out2 where P: "Process c1 now evt = (c2, out2)" by (cases "Process c1 now evt")
  from snoc.prems have "c = c2" and "chs = out1 @ out2"
    by (simp_all add: e processAll_snoc R P)
  with run_inv_step [OF snoc.IH [OF R] P] show ?case by simp
qed

lemma Sub_antimono: "u \<le> u' \<Longrightarrow> Sub t u' \<le> Sub t u"
  by (simp add: Sub_def Let_def maxDuration_def minDuration_def)

lemma Seconds_mono: "d \<le> d' \<Longrightarrow> Seconds d \<le> Seconds d'"
  by (simp add: Seconds_eq divide_right_mono)

lemma Seconds_Sub_nonneg: "u \<le> t \<Longrightarrow> 0 \<le> Seconds (Sub t u)"
  by (simp add: Seconds_eq Sub_def Let_def maxDuration_def minDuration_def)

text \<open>
  Claim C3, as the code has it. The claim says that for every emitted HungUp change the
  talk duration is 0 whenever no Answered change was emitted for the call, and that the
  total duration is at least the talk duration, also for a call answered without a
  witnessed ringing, under a clock that is non-decreasing across the call's events. The
  code measures the total duration from the ring instant and reports 0 for a call that
  never rang, so for a call answered without (or before) a witnessed ringing the total
  duration is smaller than the talk duration. What holds: let \<open>chs\<close> be the changes
  emitted by a fresh correlator for the records \<open>evts\<close>, and let the next record emit
  the HungUp change \<open>h\<close> at the instant \<open>now\<close>; the changes emitted for the call are those
  emitted for the call id of \<open>h\<close> since that id's previous HungUp change
  (\<open>since_hangup\<close>). If no Answered change was emitted for the call, the talk duration
  of \<open>h\<close> is 0. If no Ringing change was emitted for the call, the total duration of \<open>h\<close>
  is 0. If the first change emitted for the call, if any, was Ringing (\<open>rung_first\<close>),
  the instants of the call's changes and of its termination are non-decreasing, and the
  ringing was not reported at the zero time, then the talk duration of \<open>h\<close> is at most
  its total duration.
\<close>

theorem hungup_durations:
  assumes run: "processAll New evts = (c, chs)"
    and P: "Process c now evt = (c', out)"
    and h: "h \<in> set out" "State h = StateHungUp"
  shows "(StateAnswered \<notin> State ` set (since_hangup (CallID h) chs) \<longrightarrow> TalkDuration h = 0) \<and>
         (StateRinging \<notin> State ` set (since_hangup (CallID h) chs) \<longrightarrow> TotalDuration h = 0) \<and>
         (rung_first (CallID h) chs \<and>
          sorted (map Timestamp (rev (since_hangup (CallID h) chs)) @ [now]) \<and>
          (\<forall>r \<in> set (since_hangup (CallID h) chs). State r = StateRinging \<longrightarrow> Timestamp r \<noteq> zeroTime)
            \<longrightarrow> TalkDuration h \<le> TotalDuration h)"
proof (cases rule: Process_cases [of c now evt])
  case (hungup lid cs ch)
  with P h have hch: "h = ch" by auto
  let ?sh = "since_hangup lid chs"
  from run_inv_run [OF run] hungup(1) have inv: "record_inv cs ?sh"
    by (simp add: run_inv_def split: option.splits)
  have talk: "TalkDuration h = (if answered cs \<and> answerTime cs \<noteq> zeroTime
                                then Seconds (Sub now (answerTime cs)) else 0)"
    and total: "TotalDuration h = (if ringTime cs \<noteq> zeroTime
                                   then Seconds (Sub now (ringTime cs)) else 0)"
    and lid: "CallID h = lid"
    using hungup by (simp_all add: hch IsZero_def)
  have part1: "StateAnswered \<notin> State ` set ?sh \<longrightarrow> TalkDuration h = 0"
    using inv by (auto simp add: talk record_inv_def)
  have part2: "StateRinging \<notin> State ` set ?sh \<longrightarrow> TotalDuration h = 0"
    using inv by (auto simp add: total record_inv_def)
  have part3: "rung_first lid chs \<and> sorted (map Timestamp (rev ?sh) @ [now]) \<and>
          (\<forall>r \<in> set ?sh. State r = StateRinging \<longrightarrow> Timestamp r \<noteq> zeroTime)
            \<longrightarrow> TalkDuration h \<le> TotalDuration h"
  proof
    assume A: "rung_first lid chs \<and> sorted (map Timestamp (rev ?sh) @ [now]) \<and>
          (\<forall>r \<in> set ?sh. State r = StateRinging \<longrightarrow> Timestamp r \<noteq> zeroTime)"
    from inv consider
        (created) "?sh = []" "\<not> rung cs" "\<not> answered cs" "ringTime cs = zeroTime"
      | (rung) r where "?sh = [r]" "State r = StateRinging" "\<not> answered cs" "ringTime cs = Timestamp r"
      | (answered_only) a where "?sh = [a]" "State a = StateAnswered"
      | (rung_answered) a r where "?sh = [a, r]" "State r = StateRinging"
          "ringTime cs = Timestamp r" "answerTime cs = Timestamp a"
      | (answered_rung) r a where "?sh = [r, a]" "State a = StateAnswered"
      unfolding record_inv_def by blast
    then show "TalkDuration h \<le> TotalDuration h"
    proof cases
      case created
      then show ?thesis by (simp add: talk total)
    next
      case rung
      with A have "Timestamp r \<le> now" by simp
      with rung Seconds_Sub_nonneg [of "Timestamp r" now] show ?thesis
        by (simp add: talk total)
    next
      case answered_only
      with A show ?thesis by (simp add: rung_first_def)
    next
      case rung_answered
      with A have le: "Timestamp r \<le> Timestamp a" "Timestamp r \<le> now" and nz: "Timestamp r \<noteq> zeroTime"
        by simp_all
      from le(1) have "Seconds (Sub now (Timestamp a)) \<le> Seconds (Sub now (Timestamp r))"
        by (intro Seconds_mono Sub_antimono)
      with rung_answered nz Seconds_Sub_nonneg [OF le(2)] show ?thesis
        by (simp add: talk total)
    next
      case answered_rung
      with A show ?thesis by (simp add: rung_first_def)
    qed
  qed
  from part1 part2 part3 show ?thesis by (simp only: lid)
qed (use P h in auto)

text \<open>
  Scenario B of the specification (ringing one second after the creation, the
  cancellation signal, the primary leg's termination ten seconds after the ringing), and
  a call that is turned down busy nine seconds after its creation without having rung.
\<close>

theorem hungup_durations_witness:
  "rung_first ''na.1'' (snd (processAll New
      [(63902865600000000000, NewEvent [''Event'', ''Newchannel'', ''CallerIDNum'', ''1986'',
          ''Exten'', ''21'', ''Uniqueid'', ''na.1'', ''Linkedid'', ''na.1'']),
       (63902865601000000000, NewEvent [''Event'', ''Newstate'', ''ChannelStateDesc'', ''Ringing'',
          ''Uniqueid'', ''na.2'', ''Linkedid'', ''na.1'']),
       (63902865602000000000, NewEvent [''Event'', ''DialEnd'', ''DialStatus'', ''CANCEL'',
          ''Uniqueid'', ''na.1'', ''Linkedid'', ''na.1''])])) \<and>
   map Timestamp (rev (since_hangup ''na.1'' (snd (processAll New
      [(63902865600000000000, NewEvent [''Event'', ''Newchannel'', ''CallerIDNum'', ''1986'',
          ''Exten'', ''21'', ''Uniqueid'', ''na.1'', ''Linkedid'', ''na.1'']),
       (63902865601000000000, NewEvent [''Event'', ''Newstate'', ''ChannelStateDesc'', ''Ringing'',
          ''Uniqueid'', ''na.2'', ''Linkedid'', ''na.1'']),
       (63902865602000000000, NewEvent [''Event'', ''DialEnd'', ''DialStatus'', ''CANCEL'',
          ''Uniqueid'', ''na.1'', ''Linkedid'', ''na.1''])])))) @ [63902865611000000000]
     = [63902865601000000000, 63902865611000000000] \<and>
   map (\<lambda>ch. (State ch, CallID ch, Cause ch, CauseCode ch, TalkDuration ch, TotalDuration ch))
     (snd (Process (fst (processAll New
      [(63902865600000000000, NewEvent [''Event'', ''Newchannel'', ''CallerIDNum'', ''1986'',
          ''Exten'', ''21'', ''Uniqueid'', ''na.1'', ''Linkedid'', ''na.1'']),
       (63902865601000000000, NewEvent [''Event'', ''Newstate'', ''ChannelStateDesc'', ''Ringing'',
          ''Uniqueid'', ''na.2'', ''Linkedid'', ''na.1'']),
       (63902865602000000000, NewEvent [''Event'', ''DialEnd'', ''DialStatus'', ''CANCEL'',
          ''Uniqueid'', ''na.1'', ''Linkedid'', ''na.1''])]))
       63902865611000000000
       (NewEvent [''Event'', ''Hangup'', ''Cause'', ''16'', ''Uniqueid'', ''na.1'', ''Linkedid'', ''na.1''])))
     = [(StateHungUp, ''na.1'', ''cancelled'', 16, 0, 10)] \<and>
   since_hangup ''up.1'' (snd (processAll New
      [(63902865600000000000, NewEvent [''Event'', ''Newchannel'', ''CallerIDNum'', ''1986'',
          ''Exten'', ''21'', ''Uniqueid'', ''up.1'', ''Linkedid'', ''up.1''])])) = [] \<and>
   map (\<lambda>ch. (State ch, CallID ch, Cause ch, CauseCode ch, TalkDuration ch, TotalDuration ch))
     (snd (Process (fst (processAll New
      [(63902865600000000000, NewEvent [''Event'', ''Newchannel'', ''CallerIDNum'', ''1986'',
          ''Exten'', ''21'', ''Uniqueid'', ''up.1'', ''Linkedid'', ''up.1''])]))
       63902865609000000000
       (NewEvent [''Event'', ''Hangup'', ''Cause'', ''17'', ''Uniqueid'', ''up.1'', ''Linkedid'', ''up.1''])))
     = [(StateHungUp, ''up.1'', ''user_busy'', 17, 0, 0)]"
  using hungup_durations [of
      "[(63902865600000000000, NewEvent [''Event'', ''Newchannel'', ''CallerIDNum'', ''1986'',
          ''Exten'', ''21'', ''Uniqueid'', ''na.1'', ''Linkedid'', ''na.1'']),
       (63902865601000000000, NewEvent [''Event'', ''Newstate'', ''ChannelStateDesc'', ''Ringing'',
          ''Uniqueid'', ''na.2'', ''Linkedid'', ''na.1'']),
       (63902865602000000000, NewEvent [''Event'', ''DialEnd'', ''DialStatus'', ''CANCEL'',
          ''Uniqueid'', ''na.1'', ''Linkedid'', ''na.1''])]"
      "fst (processAll New
      [(63902865600000000000, NewEvent [''Event'', ''Newchannel'', ''CallerIDNum'', ''1986'',
          ''Exten'', ''21'', ''Uniqueid'', ''na.1'', ''Linkedid'', ''na.1'']),
       (63902865601000000000, NewEvent [''Event'', ''Newstate'', ''ChannelStateDesc'', ''Ringing'',
          ''Uniqueid'', ''na.2'', ''Linkedid'', ''na.1'']),
       (63902865602000000000, NewEvent [''Event'', ''DialEnd'', ''DialStatus'', ''CANCEL'',
          ''Uniqueid'', ''na.1'', ''Linkedid'', ''na.1''])])"
      "snd (processAll New
      [(63902865600000000000, NewEvent [''Event'', ''Newchannel'', ''CallerIDNum'', ''1986'',
          ''Exten'', ''21'', ''Uniqueid'', ''na.1'', ''Linkedid'', ''na.1'']),
       (63902865601000000000, NewEvent [''Event'', ''Newstate'', ''ChannelStateDesc'', ''Ringing'',
          ''Uniqueid'', ''na.2'', ''Linkedid'', ''na.1'']),
       (63902865602000000000, NewEvent [''Event'', ''DialEnd'', ''DialStatus'', ''CANCEL'',
          ''Uniqueid'', ''na.1'', ''Linkedid'', ''na.1''])])"
      63902865611000000000
      "NewEvent [''Event'', ''Hangup'', ''Cause'', ''16'', ''Uniqueid'', ''na.1'', ''Linkedid'', ''na.1'']"
      New
      "[\<lparr>State = StateHungUp, CallID = ''na.1'',
         From = \<lparr>Extension = ''1986'', Name = []\<rparr>, To = \<lparr>Extension = ''21'', Name = []\<rparr>,
         Timestamp = 63902865611000000000, RingDuration = 0, Cause = ''cancelled'',
         CauseDescription = ''The call was cancelled by the caller before being answered'',
         CauseCode = 16, TalkDuration = 0, TotalDuration = 10\<rparr>]"
      "\<lparr>State = StateHungUp, CallID = ''na.1'',
         From = \<lparr>Extension = ''1986'', Name = []\<rparr>, To = \<lparr>Extension = ''21'', Name = []\<rparr>,
         Timestamp = 63902865611000000000, RingDuration = 0, Cause = ''cancelled'',
         CauseDescription = ''The call was cancelled by the caller before being answered'',
         CauseCode = 16, TalkDuration = 0, TotalDuration = 10\<rparr>"]
    hungup_durations [of
      "[(63902865600000000000, NewEvent [''Event'', ''Newchannel'', ''CallerIDNum'', ''1986'',
          ''Exten'', ''21'', ''Uniqueid'', ''up.1'', ''Linkedid'', ''up.1''])]"
      "fst (processAll New
      [(63902865600000000000, NewEvent [''Event'', ''Newchannel'', ''CallerIDNum'', ''1986'',
          ''Exten'', ''21'', ''Uniqueid'', ''up.1'', ''Linkedid'', ''up.1''])])"
      "snd (processAll New
      [(63902865600000000000, NewEvent [''Event'', ''Newchannel'', ''CallerIDNum'', ''1986'',
          ''Exten'', ''21'', ''Uniqueid'', ''up.1'', ''Linkedid'', ''up.1''])])"
      63902865609000000000
      "NewEvent [''Event'', ''Hangup'', ''Cause'', ''17'', ''Uniqueid'', ''up.1'', ''Linkedid'', ''up.1'']"
      New
      "[\<lparr>State = StateHungUp, CallID = ''up.1'',
         From = \<lparr>Extension = ''1986'', Name = []\<rparr>, To = \<lparr>Extension = ''21'', Name = []\<rparr>,
         Timestamp = 63902865609000000000, RingDuration = 0, Cause = ''user_busy'',
         CauseDescription = ''The destination was busy'',
         CauseCode = 17, TalkDuration = 0, TotalDuration = 0\<rparr>]"
      "\<lparr>State = StateHungUp, CallID = ''up.1'',
         From = \<lparr>Extension = ''1986'', Name = []\<rparr>, To = \<lparr>Extension = ''21'', Name = []\<rparr>,
         Timestamp = 63902865609000000000, RingDuration = 0, Cause = ''user_busy'',
         CauseDescription = ''The destination was busy'',
         CauseCode = 17, TalkDuration = 0, TotalDuration = 0\<rparr>"]
  by (simp add: run_defs rung_first_def since_hangup_def)

text \<open>
  A call answered one second after its creation with no ringing notification, hung up
  thirty seconds later, under an increasing clock: the HungUp change has talk duration
  30 and total duration 0.
\<close>

theorem answered_without_ring_counterexample:
  "sorted [63902865600000000000, 63902865601000000000, 63902865631000000000 :: Time] \<and>
   length (snd (processAll New
      [(63902865600000000000, NewEvent [''Event'', ''Newchannel'', ''CallerIDNum'', ''1986'',
          ''Exten'', ''21'', ''Uniqueid'', ''test.1'', ''Linkedid'', ''test.1'']),
       (63902865601000000000, NewEvent [''Event'', ''Newstate'', ''ChannelStateDesc'', ''Up'',
          ''Uniqueid'', ''test.2'', ''Linkedid'', ''test.1'']),
       (63902865631000000000, NewEvent [''Event'', ''Hangup'', ''Cause'', ''16'',
          ''Uniqueid'', ''test.1'', ''Linkedid'', ''test.1''])])) = 2 \<and>
   State (snd (processAll New
      [(63902865600000000000, NewEvent [''Event'', ''Newchannel'', ''CallerIDNum'', ''1986'',
          ''Exten'', ''21'', ''Uniqueid'', ''test.1'', ''Linkedid'', ''test.1'']),
       (63902865601000000000, NewEvent [''Event'', ''Newstate'', ''ChannelStateDesc'', ''Up'',
          ''Uniqueid'', ''test.2'', ''Linkedid'', ''test.1'']),
       (63902865631000000000, NewEvent [''Event'', ''Hangup'', ''Cause'', ''16'',
          ''Uniqueid'', ''test.1'', ''Linkedid'', ''test.1''])]) ! 1) = StateHungUp \<and>
   TalkDuration (snd (processAll New
      [(63902865600000000000, NewEvent [''Event'', ''Newchannel'', ''CallerIDNum'', ''1986'',
          ''Exten'', ''21'', ''Uniqueid'', ''test.1'', ''Linkedid'', ''test.1'']),
       (63902865601000000000, NewEvent [''Event'', ''Newstate'', ''ChannelStateDesc'', ''Up'',
          ''Uniqueid'', ''test.2'', ''Linkedid'', ''test.1'']),
       (63902865631000000000, NewEvent [''Event'', ''Hangup'', ''Cause'', ''16'',
          ''Uniqueid'', ''test.1'', ''Linkedid'', ''test.1''])]) ! 1) = 30 \<and>
   TotalDuration (snd (processAll New
      [(63902865600000000000, NewEvent [''Event'', ''Newchannel'', ''CallerIDNum'', ''1986'',
          ''Exten'', ''21'', ''Uniqueid'', ''test.1'', ''Linkedid'', ''test.1'']),
       (63902865601000000000, NewEvent [''Event'', ''Newstate'', ''ChannelStateDesc'', ''Up'',
          ''Uniqueid'', ''test.2'', ''Linkedid'', ''test.1'']),
       (63902865631000000000, NewEvent [''Event'', ''Hangup'', ''Cause'', ''16'',
          ''Uniqueid'', ''test.1'', ''Linkedid'', ''test.1''])]) ! 1) = 0"
  by (simp add: run_defs)

end
